theory Spec2Isabelle
  imports Main "HOL-Library.Sublist"
begin

section \<open>pyznap.ssh: the multiplexed ssh session\<close>

text \<open>
  A shallow embedding of \<^verbatim>\<open>src/pyznap/ssh.py\<close>. The class \<^verbatim>\<open>SSH\<close> becomes a record
  of its attributes, each method a function that takes the object and the outside world
  and returns its result (an exception or a value) with the updated object and world.
  The outside world is what the module reaches through \<^verbatim>\<open>os.path\<close>, \<^verbatim>\<open>datetime\<close>,
  \<^verbatim>\<open>subprocess\<close>, \<^verbatim>\<open>logging\<close> and \<^verbatim>\<open>pyznap.utils.exists\<close>; every process the module
  spawns is appended to a trace, so that "a probe is performed" and "no connection is
  attempted" are statements about that trace.
\<close>

subsection \<open>Decimal rendering of integers\<close>

text \<open>
  \<^verbatim>\<open>str(n)\<close> and the format specification \<^verbatim>\<open>{:d}\<close> of a Python \<^verbatim>\<open>int\<close>: the decimal
  digits, most significant first, after a minus sign when the number is negative.
\<close>

definition digit_char :: "nat \<Rightarrow> char" where
  "digit_char d = ''0123456789'' ! d"

definition digit_val :: "char \<Rightarrow> nat" where
  "digit_val c = of_char c - 48"

fun dec :: "nat \<Rightarrow> string" where
  "dec n = (if n < 10 then [digit_char n] else dec (n div 10) @ [digit_char (n mod 10)])"

declare dec.simps [simp del]

definition str_int :: "int \<Rightarrow> string" where
  "str_int i = (if i < 0 then CHR ''-'' # dec (nat (- i)) else dec (nat i))"

text \<open>Reading a digit string back, used to show that the rendering loses nothing.\<close>

definition undec :: "string \<Rightarrow> nat" where
  "undec s = foldl (\<lambda>acc c. 10 * acc + digit_val c) 0 s"

text \<open>A field of \<^verbatim>\<open>strftime\<close> padded with zeros to a minimal width (\<^verbatim>\<open>%m\<close> is \<^verbatim>\<open>07\<close>).\<close>

definition zero_pad :: "nat \<Rightarrow> nat \<Rightarrow> string" where
  "zero_pad w n = replicate (w - length (dec n)) CHR ''0'' @ dec n"

subsection \<open>The clock\<close>

text \<open>
  What \<^verbatim>\<open>datetime.now()\<close> returns. \<^verbatim>\<open>strftime('%Y-%m-%d_%H:%M:%S')\<close> renders it to the
  second; the microseconds are dropped. The year is written with four digits and every
  other field with two.
\<close>

record datetime =
  year :: nat
  month :: nat
  day :: nat
  hour :: nat
  minute :: nat
  second :: nat
  microsecond :: nat

definition strftime :: "datetime \<Rightarrow> string" where
  "strftime t =
     zero_pad 4 (year t) @ ''-'' @ zero_pad 2 (month t) @ ''-'' @ zero_pad 2 (day t) @ ''_'' @
     zero_pad 2 (hour t) @ '':'' @ zero_pad 2 (minute t) @ '':'' @ zero_pad 2 (second t)"

text \<open>
  The ranges Python's \<^verbatim>\<open>datetime\<close> enforces on its fields (the day is only bounded by
  31 here, which is weaker than the calendar and so admits every real value).
\<close>

definition datetime_in_range :: "datetime \<Rightarrow> bool" where
  "datetime_in_range t =
     (1 \<le> year t \<and> year t \<le> 9999 \<and> 1 \<le> month t \<and> month t \<le> 12 \<and>
      1 \<le> day t \<and> day t \<le> 31 \<and> hour t < 24 \<and> minute t < 60 \<and> second t < 60 \<and>
      microsecond t < 1000000)"

text \<open>The timestamp at second granularity: everything but the microseconds.\<close>

definition to_second :: "datetime \<Rightarrow> nat \<times> nat \<times> nat \<times> nat \<times> nat \<times> nat" where
  "to_second t = (year t, month t, day t, hour t, minute t, second t)"

subsection \<open>Exceptions\<close>

text \<open>
  \<^verbatim>\<open>SSHException\<close> is raised with one argument: the captured standard error with its
  trailing whitespace removed, or the \<^verbatim>\<open>TimeoutExpired\<close> object (command and timeout).
  \<open>OSError\<close> stands for what \<^verbatim>\<open>subprocess\<close> raises when the program cannot be started
  (\<^verbatim>\<open>FileNotFoundError\<close> or \<^verbatim>\<open>PermissionError\<close> for the binary, both of them
  \<^verbatim>\<open>OSError\<close>), with the command it was asked to run.
\<close>

datatype ssh_cause =
  Stderr_output string
| Timeout_description "string list" nat

datatype exn =
  FileNotFoundError string
| SSHException ssh_cause
| CalledProcessError int "string list" string string
| TimeoutExpired "string list" nat
| AttributeError string
| KeyError string
| OSError "string list"

subsection \<open>The object\<close>

text \<open>
  An attribute that \<^verbatim>\<open>__init__\<close> assigns only after a point where it may raise can be
  missing from the object; reading it then raises \<^verbatim>\<open>AttributeError\<close>.
\<close>

datatype 'a attr = Unset | Set 'a

record ssh =
  user :: string
  host :: string
  port :: int
  socket :: string
  key :: string
  cmd :: "string list attr"
  compression :: "string option attr"
  cmd_compress :: "string list attr"

subsection \<open>The outside world\<close>

record call =
  argv :: "string list"
  timeout :: nat

text \<open>
  What becomes of a process the module asks for: it ends with an exit status, it is still
  running when the timeout expires, or the program cannot be started at all.
\<close>

datatype proc_result =
  Exited int string string
| Timed_out
| Cannot_start

datatype log_record =
  Error_invalid_key string
| Error_connecting string string ssh_cause
| Warning_not_supported string
| Warning_missing_local string
| Warning_missing_remote string string string

text \<open>
  \<^item> \<open>isfile\<close> is \<^verbatim>\<open>os.path.isfile\<close>, \<open>expanduser\<close> is \<^verbatim>\<open>os.path.expanduser\<close>, \<open>now\<close> is
    the reading of \<^verbatim>\<open>datetime.now()\<close>;
  \<^item> \<open>spawn\<close> decides how a process ends, given the processes run before it, so the
    same command may succeed once and fail the next time;
  \<^item> \<open>capability\<close> is the answer of the capability check for a name, locally
    (\<open>None\<close>) or through a session;
  \<^item> \<open>calls\<close> is the trace of the processes asked for so far and \<open>logged\<close> the records
    handed to the logger.
\<close>

record world =
  isfile :: "string \<Rightarrow> bool"
  expanduser :: "string \<Rightarrow> string"
  now :: datetime
  spawn :: "call list \<Rightarrow> call \<Rightarrow> proc_result"
  capability :: "string \<Rightarrow> ssh option \<Rightarrow> bool"
  calls :: "call list"
  logged :: "log_record list"

definition log_to :: "log_record \<Rightarrow> world \<Rightarrow> world" where
  "log_to r w = w\<lparr>logged := logged w @ [r]\<rparr>"

text \<open>
  \<^verbatim>\<open>subprocess.check_output(argv, timeout=t, stderr=PIPE)\<close>: the request is recorded; a
  non-zero exit status raises \<^verbatim>\<open>CalledProcessError\<close> carrying the captured output, an
  expired timeout raises \<^verbatim>\<open>TimeoutExpired\<close>, a program that cannot be started raises
  \<^verbatim>\<open>OSError\<close>, and otherwise the standard output is returned.
\<close>

definition check_output :: "string list \<Rightarrow> nat \<Rightarrow> world \<Rightarrow> (exn + string) \<times> world" where
  "check_output a t w =
     (let c = \<lparr>argv = a, timeout = t\<rparr>;
          w' = w\<lparr>calls := calls w @ [c]\<rparr>
      in case spawn w (calls w) c of
           Exited rc out err \<Rightarrow>
             if rc \<noteq> 0 then (Inl (CalledProcessError rc a out err), w') else (Inr out, w')
         | Timed_out \<Rightarrow> (Inl (TimeoutExpired a t), w')
         | Cannot_start \<Rightarrow> (Inl (OSError a), w'))"

text \<open>
  Modelled from the spec: \<^verbatim>\<open>exists\<close> of \<^verbatim>\<open>pyznap.utils\<close>, which the sources import but
  do not contain. By section 4.1 it answers true or false for a name, for the local
  machine or for a given session, and a probe that fails or times out answers false; the
  answer is left to the world, and whatever processes the check runs are not entered in
  the trace.
\<close>

definition exists_util :: "world \<Rightarrow> string \<Rightarrow> ssh option \<Rightarrow> bool" where
  "exists_util w name target = capability w name target"

text \<open>\<^verbatim>\<open>bytes.rstrip()\<close>: trailing ASCII whitespace removed.\<close>

definition is_space :: "char \<Rightarrow> bool" where
  "is_space c = (c \<in> set [CHR '' '', CHR 0x09, CHR 0x0A, CHR 0x0B, CHR 0x0C, CHR 0x0D])"

definition rstrip :: "string \<Rightarrow> string" where
  "rstrip s = rev (dropWhile is_space (rev s))"

subsection \<open>The methods\<close>

text \<open>
  \<^verbatim>\<open>close\<close> (lines 141 to 147): the command vector is read first, outside nothing that
  would catch a missing attribute; \<^verbatim>\<open>CalledProcessError\<close> and \<^verbatim>\<open>TimeoutExpired\<close> are
  swallowed, any other exception passes to the caller. It assigns no attribute.
\<close>

definition close_swallows :: "exn \<Rightarrow> bool" where
  "close_swallows e =
     (case e of CalledProcessError rc a out err \<Rightarrow> True | TimeoutExpired a t \<Rightarrow> True | _ \<Rightarrow> False)"

definition close :: "ssh \<Rightarrow> world \<Rightarrow> (exn + unit) \<times> world" where
  "close s w =
     (case cmd s of
        Unset \<Rightarrow> (Inl (AttributeError ''cmd''), w)
      | Set c \<Rightarrow>
          (case check_output (c @ [''-O'', ''exit'']) 5 w of
             (Inl e, w') \<Rightarrow> if close_swallows e then (Inr (), w') else (Inl e, w')
           | (Inr out, w') \<Rightarrow> (Inr (), w')))"

text \<open>\<^verbatim>\<open>__del__\<close> (lines 150 and 151) calls \<^verbatim>\<open>close\<close> and nothing else.\<close>

definition SSH_del :: "ssh \<Rightarrow> world \<Rightarrow> (exn + unit) \<times> world" where
  "SSH_del s w = close s w"

text \<open>The tables of \<^verbatim>\<open>setup_compress\<close> (lines 118 to 121).\<close>

definition algos :: "string list" where
  "algos = [''gzip'', ''lzop'', ''bzip2'', ''pigz'', ''xz'']"

definition compress_cmd :: "string \<rightharpoonup> string" where
  "compress_cmd = map_of
     [(''gzip'', ''gzip''), (''lzop'', ''lzop''), (''bzip2'', ''bzip2''), (''pigz'', ''pigz''),
      (''xz'', ''xz'')]"

definition decompress_cmd :: "string \<rightharpoonup> string" where
  "decompress_cmd = map_of
     [(''gzip'', ''gzip -d''), (''lzop'', ''lzop -d''), (''bzip2'', ''bzip2 -d''),
      (''pigz'', ''pigz -d''), (''xz'', ''xz -d'')]"

text \<open>
  \<^verbatim>\<open>setup_compress\<close> (lines 102 to 138). The first two assignments happen in every
  call; each early \<^verbatim>\<open>return\<close> leaves them in place. List concatenation builds a new
  list, so no assignment here changes the list another attribute holds.
\<close>

definition setup_compress :: "string option \<Rightarrow> ssh \<Rightarrow> world \<Rightarrow> (exn + unit) \<times> ssh \<times> world" where
  "setup_compress type s w =
     (let s1 = s\<lparr>compression := Set None\<rparr> in
      case cmd s1 of
        Unset \<Rightarrow> (Inl (AttributeError ''cmd''), s1, w)
      | Set c \<Rightarrow>
          let s2 = s1\<lparr>cmd_compress := Set c\<rparr> in
          (case type of
             None \<Rightarrow> (Inr (), s2, w)
           | Some t \<Rightarrow>
               if t \<notin> set algos then (Inr (), s2, log_to (Warning_not_supported t) w)
               else if \<not> exists_util w t None then
                 (Inr (), s2, log_to (Warning_missing_local t) w)
               else if \<not> exists_util w t (Some s2) then
                 (Inr (), s2, log_to (Warning_missing_remote t (user s2) (host s2)) w)
               else
                 let s3 = s2\<lparr>compression := Set (Some t)\<rparr> in
                 (case compress_cmd t of
                    None \<Rightarrow> (Inl (KeyError t), s3, w)
                  | Some cc \<Rightarrow>
                      (case decompress_cmd t of
                         None \<Rightarrow> (Inl (KeyError t), s3, w)
                       | Some dc \<Rightarrow>
                           (Inr (),
                            s3\<lparr>cmd_compress := Set ([cc] @ [''|''] @ c @ [dc] @ [''|''])\<rparr>,
                            w)))))"

text \<open>The socket path of lines 72 and 73 and the command vector of lines 80 to 82.\<close>

definition socket_path :: "string \<Rightarrow> string \<Rightarrow> int \<Rightarrow> datetime \<Rightarrow> string" where
  "socket_path u h p t =
     ''/tmp/pyznap_'' @ u @ ''@'' @ h @ '':'' @ str_int p @ ''_'' @ strftime t"

definition base_cmd :: "ssh \<Rightarrow> string list" where
  "base_cmd s =
     [''ssh'', ''-i'', key s, ''-o'', ''ControlMaster=auto'', ''-o'', ''ControlPersist=1m'',
      ''-o'', ''ControlPath='' @ socket s, ''-p'', str_int (port s), user s @ ''@'' @ host s]"

text \<open>
  \<^verbatim>\<open>key or os.path.expanduser('~/.ssh/id_rsa')\<close> (line 74): the default is taken when
  the argument is \<^verbatim>\<open>None\<close>, and also when it is the empty string.
\<close>

definition resolve_key :: "world \<Rightarrow> string option \<Rightarrow> string" where
  "resolve_key w k =
     (case k of
        None \<Rightarrow> expanduser w ''~/.ssh/id_rsa''
      | Some p \<Rightarrow> if p = [] then expanduser w ''~/.ssh/id_rsa'' else p)"

text \<open>
  \<^verbatim>\<open>__init__\<close> (lines 44 to 99). The object is returned on every path, also when the
  constructor raises: it is what the finalizer later sees.
\<close>

definition SSH_init ::
  "string \<Rightarrow> string \<Rightarrow> string option \<Rightarrow> int \<Rightarrow> string option \<Rightarrow> world \<Rightarrow> (exn + unit) \<times> ssh \<times> world"
where
  "SSH_init u h k p compress w =
     (let s0 = \<lparr>user = u, host = h, port = p, socket = socket_path u h p (now w),
                key = resolve_key w k, cmd = Unset, compression = Unset, cmd_compress = Unset\<rparr>
      in if \<not> isfile w (key s0) then
           (Inl (FileNotFoundError (key s0)), s0, log_to (Error_invalid_key (key s0)) w)
         else
           let s1 = s0\<lparr>cmd := Set (base_cmd s0)\<rparr> in
           (case check_output (base_cmd s0 @ [''ls'']) 10 w of
              (Inl (CalledProcessError rc a out err), w1) \<Rightarrow>
                (let cause = Stderr_output (rstrip err);
                     w2 = log_to (Error_connecting u h cause) w1
                 in case close s1 w2 of
                      (Inl e, w3) \<Rightarrow> (Inl e, s1, w3)
                    | (Inr x, w3) \<Rightarrow> (Inl (SSHException cause), s1, w3))
            | (Inl (TimeoutExpired a t), w1) \<Rightarrow>
                (let cause = Timeout_description a t;
                     w2 = log_to (Error_connecting u h cause) w1
                 in case close s1 w2 of
                      (Inl e, w3) \<Rightarrow> (Inl e, s1, w3)
                    | (Inr x, w3) \<Rightarrow> (Inl (SSHException cause), s1, w3))
            | (Inl e, w1) \<Rightarrow> (Inl e, s1, w1)
            | (Inr out, w1) \<Rightarrow> setup_compress compress s1 w1))"

subsection \<open>Example worlds\<close>

text \<open>
  The end-to-end scenario of the specification: user alice, host backup.example, the key
  \<^verbatim>\<open>/tmp/validkey\<close>, port 22. In \<open>ex_world\<close> the key file exists, every process exits
  with status 0 and every capability check answers yes.
\<close>

definition ex_now :: datetime where
  "ex_now = \<lparr>year = 2019, month = 3, day = 7, hour = 9, minute = 30, second = 5,
             microsecond = 120000\<rparr>"

definition ex_world :: world where
  "ex_world =
     \<lparr>isfile = (\<lambda>f. f = ''/tmp/validkey''),
      expanduser = (\<lambda>f. ''/home/alice'' @ tl f),
      now = ex_now,
      spawn = (\<lambda>past c. Exited 0 [] []),
      capability = (\<lambda>name target. True),
      calls = [],
      logged = []\<rparr>"

definition ex_base :: "string list" where
  "ex_base =
     [''ssh'', ''-i'', ''/tmp/validkey'', ''-o'', ''ControlMaster=auto'', ''-o'',
      ''ControlPersist=1m'', ''-o'',
      ''ControlPath=/tmp/pyznap_alice@backup.example:22_2019-03-07_09:30:05'', ''-p'', ''22'',
      ''alice@backup.example'']"

text \<open>The object \<^verbatim>\<open>__init__\<close> leaves when compression is not requested.\<close>

definition ex_ssh :: ssh where
  "ex_ssh =
     \<lparr>user = ''alice'', host = ''backup.example'', port = 22,
      socket = ''/tmp/pyznap_alice@backup.example:22_2019-03-07_09:30:05'',
      key = ''/tmp/validkey'', cmd = Set ex_base, compression = Set None,
      cmd_compress = Set ex_base\<rparr>"



text \<open>
  The master connection can be closed once: a second \<^verbatim>\<open>-O exit\<close> with the same
  arguments finds no control socket and exits with status 255.
\<close>

definition ex_closing :: world where
  "ex_closing =
     ex_world\<lparr>spawn := (\<lambda>past c. if c \<in> set past then Exited 255 [] ''Control socket connect: No such file or directory''
                                 else Exited 0 [] [])\<rparr>"

text \<open>
  The transport program can be started once, for the probe, and not again afterwards (it
  was removed, or the search path changed).
\<close>

definition ex_vanishing :: world where
  "ex_vanishing = ex_world\<lparr>spawn := (\<lambda>past c. if past = [] then Exited 0 [] [] else Cannot_start)\<rparr>"

text \<open>gzip is installed locally but not on the remote host.\<close>

definition ex_no_remote_gzip :: world where
  "ex_no_remote_gzip = ex_world\<lparr>capability := (\<lambda>name target. target = None)\<rparr>"

text \<open>The same world a little later within the same second.\<close>

definition ex_later :: world where
  "ex_later =
     (snd (snd (SSH_init ''alice'' ''backup.example'' (Some ''/tmp/validkey'') 22 None ex_world)))
       \<lparr>now := ex_now\<lparr>microsecond := 870000\<rparr>\<rparr>"

text \<open>The first world one second later.\<close>

definition ex_next_second :: world where
  "ex_next_second = ex_world\<lparr>now := ex_now\<lparr>second := 6\<rparr>\<rparr>"

section \<open>Properties\<close>

subsection \<open>Processes and the trace\<close>

lemma check_output_trace:
  "calls (snd (check_output a t w)) = calls w @ [\<lparr>argv = a, timeout = t\<rparr>]"
  by (simp add: check_output_def Let_def split: proc_result.split)

lemma check_output_world:
  "snd (check_output a t w) = w\<lparr>calls := calls w @ [\<lparr>argv = a, timeout = t\<rparr>]\<rparr>"
  by (simp add: check_output_def Let_def split: proc_result.split)

lemma check_output_raises:
  "fst (check_output a t w) = Inl e \<Longrightarrow>
     (\<exists>rc out err. e = CalledProcessError rc a out err) \<or> e = TimeoutExpired a t \<or>
     e = OSError a"
  by (auto simp: check_output_def Let_def split: proc_result.splits if_splits)

lemma check_output_OSError:
  "fst (check_output a t w) = Inl (OSError a) \<longleftrightarrow>
     spawn w (calls w) \<lparr>argv = a, timeout = t\<rparr> = Cannot_start"
  by (simp add: check_output_def Let_def split: proc_result.split)

lemma close_with_cmd:
  assumes "cmd s = Set c"
  shows "close s w =
     (if spawn w (calls w) \<lparr>argv = c @ [''-O'', ''exit''], timeout = 5\<rparr> = Cannot_start
      then Inl (OSError (c @ [''-O'', ''exit''])) else Inr (),
      w\<lparr>calls := calls w @ [\<lparr>argv = c @ [''-O'', ''exit''], timeout = 5\<rparr>]\<rparr>)"
proof -
  obtain r w' where co: "check_output (c @ [''-O'', ''exit'']) 5 w = (r, w')"
    by (cases "check_output (c @ [''-O'', ''exit'']) 5 w")
  have w': "w' = w\<lparr>calls := calls w @ [\<lparr>argv = c @ [''-O'', ''exit''], timeout = 5\<rparr>]\<rparr>"
    using check_output_world [of "c @ [''-O'', ''exit'']" 5 w] co by simp
  have os: "r = Inl (OSError (c @ [''-O'', ''exit''])) \<longleftrightarrow>
      spawn w (calls w) \<lparr>argv = c @ [''-O'', ''exit''], timeout = 5\<rparr> = Cannot_start"
    using check_output_OSError [of "c @ [''-O'', ''exit'']" 5 w] co by simp
  show ?thesis
  proof (cases r)
    case (Inl e)
    from check_output_raises [of "c @ [''-O'', ''exit'']" 5 w e] co Inl
    consider (caught) "close_swallows e" "e \<noteq> OSError (c @ [''-O'', ''exit''])"
      | (passed) "e = OSError (c @ [''-O'', ''exit''])"
      by (auto simp: close_swallows_def)
    then show ?thesis
    proof cases
      case caught
      with Inl co w' os assms show ?thesis by (simp add: close_def)
    next
      case passed
      with Inl co w' os assms show ?thesis by (simp add: close_def close_swallows_def)
    qed
  next
    case (Inr out)
    with co w' os assms show ?thesis by (simp add: close_def)
  qed
qed

lemma close_without_cmd: "cmd s = Unset \<Longrightarrow> close s w = (Inl (AttributeError ''cmd''), w)"
  by (simp add: close_def)

lemma close_eq:
  "close s w =
     (case cmd s of
        Unset \<Rightarrow> (Inl (AttributeError ''cmd''), w)
      | Set c \<Rightarrow>
          (if spawn w (calls w) \<lparr>argv = c @ [''-O'', ''exit''], timeout = 5\<rparr> = Cannot_start
           then Inl (OSError (c @ [''-O'', ''exit''])) else Inr (),
           w\<lparr>calls := calls w @ [\<lparr>argv = c @ [''-O'', ''exit''], timeout = 5\<rparr>]\<rparr>))"
  by (cases "cmd s") (simp_all add: close_with_cmd close_without_cmd)

subsection \<open>What compression negotiation leaves alone\<close>

lemma setup_compress_keeps:
  "setup_compress z s w = (r, s', w') \<Longrightarrow>
     user s' = user s \<and> host s' = host s \<and> port s' = port s \<and> socket s' = socket s \<and>
     key s' = key s \<and> cmd s' = cmd s"
  by (auto simp: setup_compress_def Let_def split: attr.splits option.splits if_splits)


lemma algos_tables:
  "t \<in> set algos \<Longrightarrow> compress_cmd t = Some t \<and> decompress_cmd t = Some (t @ '' -d'')"
  by (auto simp: algos_def compress_cmd_def decompress_cmd_def)

subsection \<open>The paths through the constructor\<close>

lemma SSH_init_missing_key:
  assumes "\<not> isfile w (resolve_key w k)"
  shows "SSH_init u h k p z w =
     (Inl (FileNotFoundError (resolve_key w k)),
      \<lparr>user = u, host = h, port = p, socket = socket_path u h p (now w),
       key = resolve_key w k, cmd = Unset, compression = Unset, cmd_compress = Unset\<rparr>,
      log_to (Error_invalid_key (resolve_key w k)) w)"
  using assms by (simp add: SSH_init_def Let_def)

lemma SSH_init_probe_ok:
  assumes "isfile w (resolve_key w k)"
    and "s0 = \<lparr>user = u, host = h, port = p, socket = socket_path u h p (now w),
       key = resolve_key w k, cmd = Unset, compression = Unset, cmd_compress = Unset\<rparr>"
    and "spawn w (calls w) \<lparr>argv = base_cmd s0 @ [''ls''], timeout = 10\<rparr> = Exited 0 out err"
  shows "SSH_init u h k p z w =
     setup_compress z (s0\<lparr>cmd := Set (base_cmd s0)\<rparr>)
       (w\<lparr>calls := calls w @ [\<lparr>argv = base_cmd s0 @ [''ls''], timeout = 10\<rparr>]\<rparr>)"
  using assms by (simp add: SSH_init_def Let_def check_output_def)

lemma SSH_init_probe_exit:
  assumes "isfile w (resolve_key w k)"
    and "s0 = \<lparr>user = u, host = h, port = p, socket = socket_path u h p (now w),
       key = resolve_key w k, cmd = Unset, compression = Unset, cmd_compress = Unset\<rparr>"
    and "spawn w (calls w) \<lparr>argv = base_cmd s0 @ [''ls''], timeout = 10\<rparr> = Exited rc out err"
    and "rc \<noteq> 0"
  shows "SSH_init u h k p z w =
     (if spawn w (calls w @ [\<lparr>argv = base_cmd s0 @ [''ls''], timeout = 10\<rparr>])
           \<lparr>argv = base_cmd s0 @ [''-O'', ''exit''], timeout = 5\<rparr> = Cannot_start
      then Inl (OSError (base_cmd s0 @ [''-O'', ''exit'']))
      else Inl (SSHException (Stderr_output (rstrip err))),
      s0\<lparr>cmd := Set (base_cmd s0)\<rparr>,
      w\<lparr>calls := calls w @ [\<lparr>argv = base_cmd s0 @ [''ls''], timeout = 10\<rparr>,
                              \<lparr>argv = base_cmd s0 @ [''-O'', ''exit''], timeout = 5\<rparr>],
        logged := logged w @ [Error_connecting u h (Stderr_output (rstrip err))]\<rparr>)"
  using assms by (simp add: SSH_init_def Let_def check_output_def close_eq log_to_def)

lemma SSH_init_probe_timeout:
  assumes "isfile w (resolve_key w k)"
    and "s0 = \<lparr>user = u, host = h, port = p, socket = socket_path u h p (now w),
       key = resolve_key w k, cmd = Unset, compression = Unset, cmd_compress = Unset\<rparr>"
    and "spawn w (calls w) \<lparr>argv = base_cmd s0 @ [''ls''], timeout = 10\<rparr> = Timed_out"
  shows "SSH_init u h k p z w =
     (if spawn w (calls w @ [\<lparr>argv = base_cmd s0 @ [''ls''], timeout = 10\<rparr>])
           \<lparr>argv = base_cmd s0 @ [''-O'', ''exit''], timeout = 5\<rparr> = Cannot_start
      then Inl (OSError (base_cmd s0 @ [''-O'', ''exit'']))
      else Inl (SSHException (Timeout_description (base_cmd s0 @ [''ls'']) 10)),
      s0\<lparr>cmd := Set (base_cmd s0)\<rparr>,
      w\<lparr>calls := calls w @ [\<lparr>argv = base_cmd s0 @ [''ls''], timeout = 10\<rparr>,
                              \<lparr>argv = base_cmd s0 @ [''-O'', ''exit''], timeout = 5\<rparr>],
        logged := logged w @
          [Error_connecting u h (Timeout_description (base_cmd s0 @ [''ls'']) 10)]\<rparr>)"
  using assms by (simp add: SSH_init_def Let_def check_output_def close_eq log_to_def)

lemma SSH_init_probe_cannot_start:
  assumes "isfile w (resolve_key w k)"
    and "s0 = \<lparr>user = u, host = h, port = p, socket = socket_path u h p (now w),
       key = resolve_key w k, cmd = Unset, compression = Unset, cmd_compress = Unset\<rparr>"
    and "spawn w (calls w) \<lparr>argv = base_cmd s0 @ [''ls''], timeout = 10\<rparr> = Cannot_start"
  shows "SSH_init u h k p z w =
     (Inl (OSError (base_cmd s0 @ [''ls''])),
      s0\<lparr>cmd := Set (base_cmd s0)\<rparr>,
      w\<lparr>calls := calls w @ [\<lparr>argv = base_cmd s0 @ [''ls''], timeout = 10\<rparr>]\<rparr>)"
  using assms by (simp add: SSH_init_def Let_def check_output_def)

lemma SSH_init_fields:
  "SSH_init u h k p z w = (r, s, w1) \<Longrightarrow>
     user s = u \<and> host s = h \<and> port s = p \<and> socket s = socket_path u h p (now w) \<and>
     key s = resolve_key w k"
  by (auto simp: SSH_init_def Let_def close_eq check_output_def
      dest!: setup_compress_keeps split: if_splits proc_result.splits)

lemma SSH_init_cmd:
  assumes "SSH_init u h k p z w = (r, s, w1)"
  shows "cmd s = (if isfile w (resolve_key w k) then Set (base_cmd s) else Unset)"
  using assms
  by (auto simp: SSH_init_def Let_def close_eq check_output_def base_cmd_def
      dest!: setup_compress_keeps split: if_splits proc_result.splits)

subsection \<open>The example worlds, evaluated\<close>

lemmas ex_defs = ex_world_def ex_now_def ex_base_def ex_ssh_def

lemmas eval_defs = SSH_init_def Let_def check_output_def close_eq log_to_def resolve_key_def
  socket_path_def base_cmd_def strftime_def zero_pad_def dec.simps digit_char_def str_int_def
  setup_compress_def exists_util_def algos_def compress_cmd_def decompress_cmd_def rstrip_def
  is_space_def

lemma ex_init:
  "SSH_init ''alice'' ''backup.example'' (Some ''/tmp/validkey'') 22 None ex_world =
     (Inr (), ex_ssh, ex_world\<lparr>calls := [\<lparr>argv = ex_base @ [''ls''], timeout = 10\<rparr>]\<rparr>)"
  by (simp add: ex_defs eval_defs)

lemma ex_init_gzip:
  "SSH_init ''alice'' ''backup.example'' (Some ''/tmp/validkey'') 22 (Some ''gzip'') ex_world =
     (Inr (), ex_ssh\<lparr>compression := Set (Some ''gzip''),
                     cmd_compress := Set ([''gzip'', ''|''] @ ex_base @ [''gzip -d'', ''|''])\<rparr>,
      ex_world\<lparr>calls := [\<lparr>argv = ex_base @ [''ls''], timeout = 10\<rparr>]\<rparr>)"
  by (simp add: ex_defs eval_defs)



lemma ex_init_no_remote_gzip:
  "SSH_init ''alice'' ''backup.example'' (Some ''/tmp/validkey'') 22 (Some ''gzip'')
     ex_no_remote_gzip =
     (Inr (), ex_ssh,
      ex_no_remote_gzip
        \<lparr>calls := [\<lparr>argv = ex_base @ [''ls''], timeout = 10\<rparr>],
         logged := [Warning_missing_remote ''gzip'' ''alice'' ''backup.example'']\<rparr>)"
  by (simp add: ex_no_remote_gzip_def ex_defs eval_defs)

lemma ex_init_closing:
  "SSH_init ''alice'' ''backup.example'' (Some ''/tmp/validkey'') 22 None ex_closing =
     (Inr (), ex_ssh, ex_closing\<lparr>calls := [\<lparr>argv = ex_base @ [''ls''], timeout = 10\<rparr>]\<rparr>)"
  by (simp add: ex_closing_def ex_defs eval_defs)

lemma ex_init_vanishing:
  "SSH_init ''alice'' ''backup.example'' (Some ''/tmp/validkey'') 22 None ex_vanishing =
     (Inr (), ex_ssh, ex_vanishing\<lparr>calls := [\<lparr>argv = ex_base @ [''ls''], timeout = 10\<rparr>]\<rparr>)"
  by (simp add: ex_vanishing_def ex_defs eval_defs)

lemma ex_base_cmd: "base_cmd ex_ssh = ex_base"
  by (simp add: ex_defs eval_defs)

subsection \<open>A constructor that succeeded\<close>

lemma SSH_init_success:
  assumes "SSH_init u h k p z w = (Inr x, s, w1)"
  shows "isfile w (resolve_key w k)"
  using assms by (auto simp: SSH_init_def Let_def split: if_splits)

lemma SSH_init_success_probe:
  assumes "SSH_init u h k p z w = (Inr x, s, w1)"
  shows "\<exists>out err. spawn w (calls w) \<lparr>argv = base_cmd s @ [''ls''], timeout = 10\<rparr> = Exited 0 out err"
proof -
  define s0 where "s0 = \<lparr>user = u, host = h, port = p, socket = socket_path u h p (now w),
       key = resolve_key w k, cmd = Unset, compression = Unset, cmd_compress = Unset\<rparr>"
  have key: "isfile w (resolve_key w k)" by (rule SSH_init_success [OF assms])
  have base: "base_cmd s0 = base_cmd s"
    using SSH_init_fields [OF assms] by (simp add: base_cmd_def s0_def)
  have ok: "fst (SSH_init u h k p z w) = Inr x" using assms by simp
  show ?thesis
  proof (cases "spawn w (calls w) \<lparr>argv = base_cmd s @ [''ls''], timeout = 10\<rparr>")
    case (Exited rc out err)
    show ?thesis
    proof (cases "rc = 0")
      case True
      with Exited show ?thesis by simp
    next
      case False
      from SSH_init_probe_exit [OF key s0_def, of rc out err z] Exited False base
      have "\<exists>e. fst (SSH_init u h k p z w) = Inl e" by simp
      with ok show ?thesis by auto
    qed
  next
    case Timed_out
    from SSH_init_probe_timeout [OF key s0_def, of z] Timed_out base
    have "\<exists>e. fst (SSH_init u h k p z w) = Inl e" by simp
    with ok show ?thesis by auto
  next
    case Cannot_start
    from SSH_init_probe_cannot_start [OF key s0_def, of z] Cannot_start base
    have "\<exists>e. fst (SSH_init u h k p z w) = Inl e" by simp
    with ok show ?thesis by auto
  qed
qed

lemma SSH_init_negotiates:
  assumes key: "isfile w (resolve_key w k)"
    and init: "SSH_init u h k p z w = (r, s, w1)"
    and probe: "spawn w (calls w) \<lparr>argv = base_cmd s @ [''ls''], timeout = 10\<rparr> = Exited 0 out err"
  shows "setup_compress z (s\<lparr>compression := Unset, cmd_compress := Unset\<rparr>)
           (w\<lparr>calls := calls w @ [\<lparr>argv = base_cmd s @ [''ls''], timeout = 10\<rparr>]\<rparr>) = (r, s, w1)"
proof -
  define s0 where "s0 = \<lparr>user = u, host = h, port = p, socket = socket_path u h p (now w),
       key = resolve_key w k, cmd = Unset, compression = Unset, cmd_compress = Unset\<rparr>"
  have flds: "user s = u" "host s = h" "port s = p" "socket s = socket_path u h p (now w)"
    "key s = resolve_key w k"
    using SSH_init_fields [OF init] by simp_all
  have base: "base_cmd s0 = base_cmd s"
    by (simp add: base_cmd_def s0_def flds)
  have c: "cmd s = Set (base_cmd s)"
    using SSH_init_cmd [OF init] key by simp
  have "s0\<lparr>cmd := Set (base_cmd s0)\<rparr> = s\<lparr>compression := Unset, cmd_compress := Unset\<rparr>"
    using flds c base by (simp add: s0_def)
  then show ?thesis
    using SSH_init_probe_ok [OF key s0_def, of out err z] probe base init by simp
qed

subsection \<open>The outcomes of compression negotiation\<close>

lemma exists_util_calls [simp]: "exists_util (w\<lparr>calls := cs\<rparr>) t target = exists_util w t target"
  by (simp add: exists_util_def)

lemma setup_compress_selects:
  assumes "cmd s = Set c" and "t \<in> set algos"
    and "exists_util w t None"
    and "exists_util w t (Some (s\<lparr>compression := Set None, cmd_compress := Set c\<rparr>))"
  shows "setup_compress (Some t) s w =
     (Inr (), s\<lparr>compression := Set (Some t),
                cmd_compress := Set ([t, ''|''] @ c @ [t @ '' -d'', ''|''])\<rparr>, w)"
  using assms algos_tables [of t] by (simp add: setup_compress_def Let_def)

lemma setup_compress_declines:
  assumes "cmd s = Set c"
    and "z = None \<or> (\<exists>t. z = Some t \<and> (t \<notin> set algos \<or> \<not> exists_util w t None \<or>
           \<not> exists_util w t (Some (s\<lparr>compression := Set None, cmd_compress := Set c\<rparr>))))"
  shows "fst (setup_compress z s w) = Inr () \<and>
         fst (snd (setup_compress z s w)) = s\<lparr>compression := Set None, cmd_compress := Set c\<rparr>"
  using assms by (auto simp: setup_compress_def Let_def)

lemma setup_compress_shape:
  assumes "cmd s = Set c"
  shows "fst (setup_compress z s w) = Inr () \<and>
     (cmd_compress (fst (snd (setup_compress z s w))) = Set c \<or>
      (\<exists>t \<in> set algos.
         cmd_compress (fst (snd (setup_compress z s w))) =
           Set ([t, ''|''] @ c @ [t @ '' -d'', ''|''])))"
proof (cases "z = None \<or> (\<exists>t. z = Some t \<and> (t \<notin> set algos \<or> \<not> exists_util w t None \<or>
           \<not> exists_util w t (Some (s\<lparr>compression := Set None, cmd_compress := Set c\<rparr>))))")
  case True
  from setup_compress_declines [OF assms True] show ?thesis by simp
next
  case False
  then obtain t where "z = Some t" "t \<in> set algos" "exists_util w t None"
    "exists_util w t (Some (s\<lparr>compression := Set None, cmd_compress := Set c\<rparr>))"
    by auto
  with setup_compress_selects [OF assms, of t w] show ?thesis by auto
qed

lemma setup_compress_writes:
  "fst (snd (setup_compress z s w)) =
     s\<lparr>compression := compression (fst (snd (setup_compress z s w))),
       cmd_compress := cmd_compress (fst (snd (setup_compress z s w)))\<rparr>"
  by (auto simp: setup_compress_def Let_def split: attr.splits option.splits)

subsection \<open>Decimal rendering is one-to-one\<close>

lemma digit_cases: "d < 10 \<Longrightarrow> d \<in> {0, 1, 2, 3, 4, 5, 6, 7, 8, 9::nat}"
  by auto

lemma digit_val_char: "d < 10 \<Longrightarrow> digit_val (digit_char d) = d"
  by (drule digit_cases) (auto simp: digit_char_def digit_val_def)

lemma digit_char_in: "d < 10 \<Longrightarrow> digit_char d \<in> set ''0123456789''"
  unfolding digit_char_def by (rule nth_mem) simp

lemma undec_snoc: "undec (s @ [c]) = 10 * undec s + digit_val c"
  by (simp add: undec_def)

lemma undec_dec: "undec (dec n) = n"
proof (induction n rule: dec.induct)
  case (1 n)
  show ?case
  proof (cases "n < 10")
    case True
    then show ?thesis by (simp add: dec.simps [of n] undec_def digit_val_char)
  next
    case False
    then have "undec (dec (n div 10)) = n div 10" using 1 by simp
    with False show ?thesis
      by (simp add: dec.simps [of n] undec_snoc digit_val_char)
  qed
qed

lemma dec_inj: "dec n = dec m \<Longrightarrow> n = m"
  by (metis undec_dec)

lemma set_dec: "set (dec n) \<subseteq> set ''0123456789''"
proof (induction n rule: dec.induct)
  case (1 n)
  show ?case
  proof (cases "n < 10")
    case True
    then show ?thesis using digit_char_in [of n] by (simp add: dec.simps [of n])
  next
    case False
    then have "set (dec (n div 10)) \<subseteq> set ''0123456789''" using 1 by simp
    moreover have "digit_char (n mod 10) \<in> set ''0123456789''" by (rule digit_char_in) simp
    ultimately show ?thesis using False by (simp add: dec.simps [of n])
  qed
qed

lemma dec_not_Nil: "dec n \<noteq> []"
  by (subst dec.simps) simp

lemma colon_not_in_dec: "CHR '':'' \<notin> set (dec n)"
proof
  assume "CHR '':'' \<in> set (dec n)"
  with set_dec [of n] have "CHR '':'' \<in> set ''0123456789''" by (rule subsetD)
  then show False by simp
qed

lemma minus_not_in_dec: "CHR ''-'' \<notin> set (dec n)"
proof
  assume "CHR ''-'' \<in> set (dec n)"
  with set_dec [of n] have "CHR ''-'' \<in> set ''0123456789''" by (rule subsetD)
  then show False by simp
qed

lemma dec_not_minus: "dec n \<noteq> CHR ''-'' # s"
proof
  assume "dec n = CHR ''-'' # s"
  then have "CHR ''-'' \<in> set (dec n)" by simp
  with minus_not_in_dec [of n] show False by blast
qed

lemma str_int_inj:
  assumes e: "str_int i = str_int j"
  shows "i = j"
proof (cases "i < 0")
  case True
  note i = True
  show ?thesis
  proof (cases "j < 0")
    case True
    with i e have "dec (nat (- i)) = dec (nat (- j))" by (simp add: str_int_def)
    then have "nat (- i) = nat (- j)" by (rule dec_inj)
    with i True show ?thesis by simp
  next
    case False
    with i e have "dec (nat j) = CHR ''-'' # dec (nat (- i))" by (simp add: str_int_def)
    with dec_not_minus show ?thesis by blast
  qed
next
  case False
  note i = False
  show ?thesis
  proof (cases "j < 0")
    case True
    with i e have "dec (nat i) = CHR ''-'' # dec (nat (- j))" by (simp add: str_int_def)
    with dec_not_minus show ?thesis by blast
  next
    case False
    with i e have "dec (nat i) = dec (nat j)" by (simp add: str_int_def)
    then have "nat i = nat j" by (rule dec_inj)
    with i False show ?thesis by simp
  qed
qed

lemma colon_not_in_str_int: "CHR '':'' \<notin> set (str_int i)"
  by (simp add: str_int_def colon_not_in_dec)

subsection \<open>Timestamps to the second\<close>

lemma length_dec_1: "n < 10 \<Longrightarrow> length (dec n) = 1"
  by (simp add: dec.simps [of n])

lemma length_dec_2: "n < 100 \<Longrightarrow> length (dec n) \<le> 2"
  by (simp add: dec.simps [of n] length_dec_1)

lemma length_dec_3: "n < 1000 \<Longrightarrow> length (dec n) \<le> 3"
  using length_dec_2 [of "n div 10"] by (simp add: dec.simps [of n])

lemma length_dec_4: "n < 10000 \<Longrightarrow> length (dec n) \<le> 4"
  using length_dec_3 [of "n div 10"] by (simp add: dec.simps [of n])

lemma undec_zeros: "undec (replicate k CHR ''0'' @ s) = undec s"
proof -
  have "foldl (\<lambda>acc c. 10 * acc + digit_val c) 0 (replicate k CHR ''0'') = 0"
    by (induction k) (simp_all add: digit_val_def)
  then show ?thesis by (simp add: undec_def)
qed

lemma undec_zero_pad: "undec (zero_pad w n) = n"
  by (simp add: zero_pad_def undec_zeros undec_dec)

lemma zero_pad_inj: "zero_pad w n = zero_pad w m \<Longrightarrow> n = m"
  by (metis undec_zero_pad)

lemma length_zero_pad: "length (dec n) \<le> w \<Longrightarrow> length (zero_pad w n) = w"
  by (simp add: zero_pad_def)

lemma length_zero_pad_2: "n < 100 \<Longrightarrow> length (zero_pad 2 n) = 2"
  by (rule length_zero_pad) (rule length_dec_2)

lemma length_zero_pad_4: "n < 10000 \<Longrightarrow> length (zero_pad 4 n) = 4"
  by (rule length_zero_pad) (rule length_dec_4)

lemma length_strftime: "datetime_in_range t \<Longrightarrow> length (strftime t) = 19"
  by (simp add: strftime_def datetime_in_range_def length_zero_pad_2 length_zero_pad_4)

lemma field_eq:
  "length a = length a' \<Longrightarrow> a @ c # r = a' @ c # r' \<Longrightarrow> a = a' \<and> r = r'"
  by simp

lemma strftime_fields:
  "strftime t =
     zero_pad 4 (year t) @ CHR ''-'' # (zero_pad 2 (month t) @ CHR ''-'' # (zero_pad 2 (day t) @
     CHR ''_'' # (zero_pad 2 (hour t) @ CHR '':'' # (zero_pad 2 (minute t) @ CHR '':'' #
     zero_pad 2 (second t)))))"
  by (simp add: strftime_def)

lemma strftime_inj:
  assumes t: "datetime_in_range t" and t': "datetime_in_range t'"
    and e: "strftime t = strftime t'"
  shows "to_second t = to_second t'"
proof -
  have ly: "length (zero_pad 4 (year t)) = length (zero_pad 4 (year t'))"
    using t t' by (simp add: datetime_in_range_def length_zero_pad_4)
  have lm: "length (zero_pad 2 (month t)) = length (zero_pad 2 (month t'))"
    using t t' by (simp add: datetime_in_range_def length_zero_pad_2)
  have ld: "length (zero_pad 2 (day t)) = length (zero_pad 2 (day t'))"
    using t t' by (simp add: datetime_in_range_def length_zero_pad_2)
  have lh: "length (zero_pad 2 (hour t)) = length (zero_pad 2 (hour t'))"
    using t t' by (simp add: datetime_in_range_def length_zero_pad_2)
  have lmi: "length (zero_pad 2 (minute t)) = length (zero_pad 2 (minute t'))"
    using t t' by (simp add: datetime_in_range_def length_zero_pad_2)
  note e1 = e [unfolded strftime_fields]
  note y = field_eq [OF ly e1]
  note m = field_eq [OF lm conjunct2 [OF y]]
  note d = field_eq [OF ld conjunct2 [OF m]]
  note h = field_eq [OF lh conjunct2 [OF d]]
  note mi = field_eq [OF lmi conjunct2 [OF h]]
  have "year t = year t'" using y by (blast dest: zero_pad_inj)
  moreover have "month t = month t'" using m by (blast dest: zero_pad_inj)
  moreover have "day t = day t'" using d by (blast dest: zero_pad_inj)
  moreover have "hour t = hour t'" using h by (blast dest: zero_pad_inj)
  moreover have "minute t = minute t'" using mi by (blast dest: zero_pad_inj)
  moreover have "second t = second t'" using mi by (blast dest: zero_pad_inj)
  ultimately show ?thesis by (simp add: to_second_def)
qed

lemma strftime_to_second: "to_second t = to_second t' \<Longrightarrow> strftime t = strftime t'"
  by (simp add: to_second_def strftime_def)

subsection \<open>Reading a socket path back\<close>

lemma split_at_last:
  "c \<notin> set ys \<Longrightarrow> c \<notin> set ys' \<Longrightarrow> xs @ c # ys = xs' @ c # ys' \<Longrightarrow> xs = xs' \<and> ys = ys'"
proof (induction xs arbitrary: xs')
  case Nil
  then show ?case by (cases xs') auto
next
  case (Cons a xs)
  then show ?case by (cases xs') auto
qed

lemma socket_path_parts:
  "socket_path u h p t =
     ''/tmp/pyznap_'' @ (((u @ CHR ''@'' # h) @ CHR '':'' # str_int p) @ CHR ''_'' # strftime t)"
  by (simp add: socket_path_def)

lemma socket_path_inj:
  assumes t: "datetime_in_range t" and t': "datetime_in_range t'"
    and h: "CHR ''@'' \<notin> set h" and h': "CHR ''@'' \<notin> set h'"
    and e: "socket_path u h p t = socket_path u' h' p' t'"
  shows "u = u' \<and> h = h' \<and> p = p' \<and> to_second t = to_second t'"
proof -
  let ?X = "(u @ CHR ''@'' # h) @ CHR '':'' # str_int p"
  let ?X' = "(u' @ CHR ''@'' # h') @ CHR '':'' # str_int p'"
  have eq: "?X @ CHR ''_'' # strftime t = ?X' @ CHR ''_'' # strftime t'"
    using e unfolding socket_path_parts by (simp only: same_append_eq)
  have len: "length (CHR ''_'' # strftime t) = length (CHR ''_'' # strftime t')"
    using length_strftime [OF t] length_strftime [OF t'] by simp
  have "(?X @ CHR ''_'' # strftime t = ?X' @ CHR ''_'' # strftime t') =
        (?X = ?X' \<and> CHR ''_'' # strftime t = CHR ''_'' # strftime t')"
    by (rule append_eq_append_conv) (rule disjI2, rule len)
  with eq have x: "?X = ?X'" and s: "strftime t = strftime t'"
    by simp_all
  have sec: "to_second t = to_second t'"
    by (rule strftime_inj [OF t t' s])
  from split_at_last [OF colon_not_in_str_int colon_not_in_str_int x]
  have uh: "u @ CHR ''@'' # h = u' @ CHR ''@'' # h'" and p: "str_int p = str_int p'"
    by simp_all
  from split_at_last [OF h h' uh] have "u = u'" "h = h'" by simp_all
  moreover from p have "p = p'" by (rule str_int_inj)
  ultimately show ?thesis using sec by simp
qed

text \<open>
  The condition on the host cannot be dropped: an at sign in the host moves the boundary
  between user and host.
\<close>

lemma socket_path_at_sign:
  "socket_path ''a@b'' ''c'' p t = socket_path ''a'' ''b@c'' p t"
  by (simp add: socket_path_def)

lemma ex_later_eq:
  "ex_later = ex_world\<lparr>calls := [\<lparr>argv = ex_base @ [''ls''], timeout = 10\<rparr>],
                       now := ex_now\<lparr>microsecond := 870000\<rparr>\<rparr>"
  by (simp add: ex_later_def ex_init)

lemma ex_init_later:
  "SSH_init ''alice'' ''backup.example'' (Some ''/tmp/validkey'') 22 None ex_later =
     (Inr (), ex_ssh,
      ex_later\<lparr>calls := [\<lparr>argv = ex_base @ [''ls''], timeout = 10\<rparr>,
                          \<lparr>argv = ex_base @ [''ls''], timeout = 10\<rparr>]\<rparr>)"
  by (simp add: ex_later_eq) (simp add: ex_defs eval_defs)

section \<open>The claims\<close>

text \<open>
  C1. When the resolved key path is not an existing regular file, \<^verbatim>\<open>__init__\<close> raises
  \<^verbatim>\<open>FileNotFoundError\<close> (the specification's CredentialNotFound) carrying that path, and
  the trace of spawned processes is what it was: no connection is attempted, and with no
  transport process nothing creates the control socket. With no key given, the path that
  is checked is the expansion of \<^verbatim>\<open>~/.ssh/id_rsa\<close>.
\<close>

theorem missing_key_aborts:
  assumes "\<not> isfile w (resolve_key w k)"
  shows "fst (SSH_init u h k p z w) = Inl (FileNotFoundError (resolve_key w k)) \<and>
         calls (snd (snd (SSH_init u h k p z w))) = calls w \<and>
         resolve_key w None = expanduser w ''~/.ssh/id_rsa''"
  using assms by (simp add: SSH_init_missing_key log_to_def resolve_key_def)

text \<open>
  The instance: no key is given and the default \<^verbatim>\<open>/home/alice/.ssh/id_rsa\<close> does not
  exist.
\<close>

theorem missing_key_aborts_witness:
  "\<not> isfile ex_world (resolve_key ex_world None) \<and>
   fst (SSH_init ''alice'' ''backup.example'' None 22 (Some ''gzip'') ex_world) =
     Inl (FileNotFoundError ''/home/alice/.ssh/id_rsa'') \<and>
   calls (snd (snd (SSH_init ''alice'' ''backup.example'' None 22 (Some ''gzip'') ex_world))) = []"
proof -
  have h: "\<not> isfile ex_world (resolve_key ex_world None)"
    by (simp add: ex_world_def resolve_key_def)
  show ?thesis
    using h missing_key_aborts [OF h, of "''alice''" "''backup.example''" 22 "Some ''gzip''"]
    by (simp add: ex_world_def resolve_key_def)
qed



text \<open>
  C3. When the key file exists, the probe exits with status 0, and the requested
  algorithm is one of gzip, lzop, bzip2, pigz, xz and the capability check answers yes
  both locally and through the session, construction succeeds with \<open>compression\<close> set
  to the algorithm and \<open>cmd_compress\<close> equal to the compress binary and a pipe token, the
  base command, and the compress binary with \<^verbatim>\<open>-d\<close> appended and a pipe token.
\<close>

theorem compression_selected:
  assumes "isfile w (resolve_key w k)"
    and "SSH_init u h k p (Some t) w = (r, s, w1)"
    and "spawn w (calls w) \<lparr>argv = base_cmd s @ [''ls''], timeout = 10\<rparr> = Exited 0 out err"
    and "t \<in> set algos"
    and "exists_util w t None"
    and "exists_util w t (Some (s\<lparr>compression := Set None, cmd_compress := Set (base_cmd s)\<rparr>))"
  shows "r = Inr () \<and> compression s = Set (Some t) \<and>
         cmd_compress s = Set ([t, ''|''] @ base_cmd s @ [t @ '' -d'', ''|'']) \<and>
         cmd s = Set (base_cmd s)"
proof -
  let ?s1 = "s\<lparr>compression := Unset, cmd_compress := Unset\<rparr>"
  let ?w1 = "w\<lparr>calls := calls w @ [\<lparr>argv = base_cmd s @ [''ls''], timeout = 10\<rparr>]\<rparr>"
  have c: "cmd s = Set (base_cmd s)"
    using SSH_init_cmd [OF assms(2)] assms(1) by simp
  then have c1: "cmd ?s1 = Set (base_cmd s)" by simp
  have run: "setup_compress (Some t) ?s1 ?w1 = (r, s, w1)"
    by (rule SSH_init_negotiates [OF assms(1,2,3)])
  have sel: "setup_compress (Some t) ?s1 ?w1 =
     (Inr (), ?s1\<lparr>compression := Set (Some t),
                   cmd_compress := Set ([t, ''|''] @ base_cmd s @ [t @ '' -d'', ''|''])\<rparr>, ?w1)"
    using assms(5,6) by (intro setup_compress_selects [OF c1 assms(4)]) simp_all
  have "fst (setup_compress (Some t) ?s1 ?w1) = Inr ()"
    and "compression (fst (snd (setup_compress (Some t) ?s1 ?w1))) = Set (Some t)"
    and "cmd_compress (fst (snd (setup_compress (Some t) ?s1 ?w1))) =
           Set ([t, ''|''] @ base_cmd s @ [t @ '' -d'', ''|''])"
    by (simp_all add: sel)
  then have "r = Inr ()" "compression s = Set (Some t)"
    "cmd_compress s = Set ([t, ''|''] @ base_cmd s @ [t @ '' -d'', ''|''])"
    by (simp_all only: run fst_conv snd_conv)
  with c show ?thesis by simp
qed

text \<open>
The instance: the end-to-end scenario with gzip.
\<close>

theorem compression_selected_witness:
  "isfile ex_world (resolve_key ex_world (Some ''/tmp/validkey'')) \<and>
   spawn ex_world (calls ex_world) \<lparr>argv = ex_base @ [''ls''], timeout = 10\<rparr> = Exited 0 [] [] \<and>
   ''gzip'' \<in> set algos \<and> exists_util ex_world ''gzip'' None \<and>
   exists_util ex_world ''gzip'' (Some ex_ssh) \<and>
   fst (SSH_init ''alice'' ''backup.example'' (Some ''/tmp/validkey'') 22 (Some ''gzip'') ex_world) =
     Inr () \<and>
   compression (fst (snd (SSH_init ''alice'' ''backup.example'' (Some ''/tmp/validkey'') 22
       (Some ''gzip'') ex_world))) = Set (Some ''gzip'') \<and>
   cmd_compress (fst (snd (SSH_init ''alice'' ''backup.example'' (Some ''/tmp/validkey'') 22
       (Some ''gzip'') ex_world))) =
     Set ([''gzip'', ''|''] @ ex_base @ [''gzip -d'', ''|''])"
proof -
  let ?s = "ex_ssh\<lparr>compression := Set (Some ''gzip''),
                   cmd_compress := Set ([''gzip'', ''|''] @ ex_base @ [''gzip -d'', ''|''])\<rparr>"
  have k: "isfile ex_world (resolve_key ex_world (Some ''/tmp/validkey''))"
    by (simp add: ex_world_def resolve_key_def)
  have b: "base_cmd ?s = ex_base"
    by (simp add: ex_defs eval_defs)
  have p: "spawn ex_world (calls ex_world) \<lparr>argv = base_cmd ?s @ [''ls''], timeout = 10\<rparr> =
      Exited 0 [] []"
    by (simp add: ex_world_def)
  have a: "''gzip'' \<in> set algos" by (simp add: algos_def)
  have l: "exists_util ex_world ''gzip'' None"
    by (simp add: exists_util_def ex_world_def)
  have r: "exists_util ex_world ''gzip''
      (Some (?s\<lparr>compression := Set None, cmd_compress := Set (base_cmd ?s)\<rparr>))"
    by (simp add: exists_util_def ex_world_def)
  have r': "exists_util ex_world ''gzip'' (Some ex_ssh)"
    by (simp add: exists_util_def ex_world_def)
  show ?thesis
    using compression_selected [OF k ex_init_gzip p a l r] k p a l r'
    by (simp add: b ex_init_gzip)
qed

text \<open>
  C4. When the key file exists and the probe exits with status 0, a request for no
  compression, for a name outside the supported list, or for a supported algorithm that
  the capability check does not find locally or does not find remotely, still yields a
  session: the constructor returns normally, \<open>compression\<close> is \<^verbatim>\<open>None\<close> and
  \<open>cmd_compress\<close> is the base command.
\<close>

theorem compression_declined:
  assumes "isfile w (resolve_key w k)"
    and "SSH_init u h k p z w = (r, s, w1)"
    and "spawn w (calls w) \<lparr>argv = base_cmd s @ [''ls''], timeout = 10\<rparr> = Exited 0 out err"
    and "z = None \<or>
         (\<exists>t. z = Some t \<and>
            (t \<notin> set algos \<or> \<not> exists_util w t None \<or>
             \<not> exists_util w t
                 (Some (s\<lparr>compression := Set None, cmd_compress := Set (base_cmd s)\<rparr>))))"
  shows "r = Inr () \<and> compression s = Set None \<and> cmd_compress s = Set (base_cmd s) \<and>
         cmd s = Set (base_cmd s)"
proof -
  let ?s1 = "s\<lparr>compression := Unset, cmd_compress := Unset\<rparr>"
  let ?w1 = "w\<lparr>calls := calls w @ [\<lparr>argv = base_cmd s @ [''ls''], timeout = 10\<rparr>]\<rparr>"
  have c: "cmd s = Set (base_cmd s)"
    using SSH_init_cmd [OF assms(2)] assms(1) by simp
  then have c1: "cmd ?s1 = Set (base_cmd s)" by simp
  have run: "setup_compress z ?s1 ?w1 = (r, s, w1)"
    by (rule SSH_init_negotiates [OF assms(1,2,3)])
  have "z = None \<or> (\<exists>t. z = Some t \<and> (t \<notin> set algos \<or> \<not> exists_util ?w1 t None \<or>
           \<not> exists_util ?w1 t
               (Some (?s1\<lparr>compression := Set None, cmd_compress := Set (base_cmd s)\<rparr>))))"
    using assms(4) by simp
  from setup_compress_declines [OF c1 this]
  have "fst (setup_compress z ?s1 ?w1) = Inr ()"
    and "compression (fst (snd (setup_compress z ?s1 ?w1))) = Set None"
    and "cmd_compress (fst (snd (setup_compress z ?s1 ?w1))) = Set (base_cmd s)"
    by simp_all
  then have "r = Inr ()" "compression s = Set None" "cmd_compress s = Set (base_cmd s)"
    by (simp_all only: run fst_conv snd_conv)
  with c show ?thesis by simp
qed

text \<open>
The instance: gzip exists locally but not on the remote host.
\<close>

theorem compression_declined_witness:
  "isfile ex_no_remote_gzip (resolve_key ex_no_remote_gzip (Some ''/tmp/validkey'')) \<and>
   spawn ex_no_remote_gzip (calls ex_no_remote_gzip) \<lparr>argv = ex_base @ [''ls''], timeout = 10\<rparr> =
     Exited 0 [] [] \<and>
   ''gzip'' \<in> set algos \<and> exists_util ex_no_remote_gzip ''gzip'' None \<and>
   \<not> exists_util ex_no_remote_gzip ''gzip'' (Some ex_ssh) \<and>
   fst (SSH_init ''alice'' ''backup.example'' (Some ''/tmp/validkey'') 22 (Some ''gzip'')
       ex_no_remote_gzip) = Inr () \<and>
   compression (fst (snd (SSH_init ''alice'' ''backup.example'' (Some ''/tmp/validkey'') 22
       (Some ''gzip'') ex_no_remote_gzip))) = Set None \<and>
   cmd_compress (fst (snd (SSH_init ''alice'' ''backup.example'' (Some ''/tmp/validkey'') 22
       (Some ''gzip'') ex_no_remote_gzip))) = Set ex_base"
proof -
  have k: "isfile ex_no_remote_gzip (resolve_key ex_no_remote_gzip (Some ''/tmp/validkey''))"
    by (simp add: ex_no_remote_gzip_def ex_world_def resolve_key_def)
  have p: "spawn ex_no_remote_gzip (calls ex_no_remote_gzip)
      \<lparr>argv = base_cmd ex_ssh @ [''ls''], timeout = 10\<rparr> = Exited 0 [] []"
    by (simp add: ex_no_remote_gzip_def ex_world_def)
  have s: "ex_ssh\<lparr>compression := Set None, cmd_compress := Set (base_cmd ex_ssh)\<rparr> = ex_ssh"
    by (simp add: ex_base_cmd) (simp add: ex_ssh_def)
  have a: "''gzip'' \<in> set algos" by (simp add: algos_def)
  have l: "exists_util ex_no_remote_gzip ''gzip'' None"
    by (simp add: exists_util_def ex_no_remote_gzip_def)
  have r: "\<not> exists_util ex_no_remote_gzip ''gzip'' (Some ex_ssh)"
    by (simp add: exists_util_def ex_no_remote_gzip_def)
  have z: "Some ''gzip'' = None \<or>
         (\<exists>t. Some ''gzip'' = Some t \<and>
            (t \<notin> set algos \<or> \<not> exists_util ex_no_remote_gzip t None \<or>
             \<not> exists_util ex_no_remote_gzip t
                 (Some (ex_ssh\<lparr>compression := Set None, cmd_compress := Set (base_cmd ex_ssh)\<rparr>))))"
    using r s by simp
  show ?thesis
    using compression_declined [OF k ex_init_no_remote_gzip p z] k p a l r
    by (simp add: ex_base_cmd ex_init_no_remote_gzip)
qed

text \<open>
  C5. In every constructed session \<open>cmd_compress\<close> is the base command between a prefix
  and a suffix, so the base command is a contiguous part of it: either both are empty
  (no compression), or they are the compress and decompress fragments of a supported
  algorithm. No outcome of the negotiation drops or changes the transport invocation.
\<close>

theorem pipeline_wraps_base:
  assumes "SSH_init u h k p z w = (Inr x, s, w1)"
  shows "\<exists>pre post.
           cmd s = Set (base_cmd s) \<and>
           cmd_compress s = Set (pre @ base_cmd s @ post) \<and>
           sublist (base_cmd s) (pre @ base_cmd s @ post) \<and>
           ((pre = [] \<and> post = []) \<or>
            (\<exists>t \<in> set algos. pre = [t, ''|''] \<and> post = [t @ '' -d'', ''|'']))"
proof -
  let ?s1 = "s\<lparr>compression := Unset, cmd_compress := Unset\<rparr>"
  let ?w1 = "w\<lparr>calls := calls w @ [\<lparr>argv = base_cmd s @ [''ls''], timeout = 10\<rparr>]\<rparr>"
  have key: "isfile w (resolve_key w k)" by (rule SSH_init_success [OF assms])
  obtain out err where
    probe: "spawn w (calls w) \<lparr>argv = base_cmd s @ [''ls''], timeout = 10\<rparr> = Exited 0 out err"
    using SSH_init_success_probe [OF assms] by blast
  have c: "cmd s = Set (base_cmd s)"
    using SSH_init_cmd [OF assms] key by simp
  then have c1: "cmd ?s1 = Set (base_cmd s)" by simp
  have run: "setup_compress z ?s1 ?w1 = (Inr x, s, w1)"
    by (rule SSH_init_negotiates [OF key assms probe])
  have "cmd_compress (fst (snd (setup_compress z ?s1 ?w1))) = Set (base_cmd s) \<or>
      (\<exists>t \<in> set algos. cmd_compress (fst (snd (setup_compress z ?s1 ?w1))) =
           Set ([t, ''|''] @ base_cmd s @ [t @ '' -d'', ''|'']))"
    using setup_compress_shape [OF c1, of z ?w1] by simp
  then have "cmd_compress s = Set (base_cmd s) \<or>
      (\<exists>t \<in> set algos. cmd_compress s = Set ([t, ''|''] @ base_cmd s @ [t @ '' -d'', ''|'']))"
    by (simp only: run fst_conv snd_conv)
  then show ?thesis
  proof
    assume "cmd_compress s = Set (base_cmd s)"
    with c have "cmd s = Set (base_cmd s) \<and> cmd_compress s = Set ([] @ base_cmd s @ []) \<and>
       sublist (base_cmd s) ([] @ base_cmd s @ []) \<and>
       (([] = [] \<and> [] = []) \<or>
        (\<exists>t \<in> set algos. [] = [t, ''|''] \<and> [] = [t @ '' -d'', ''|'']))"
      by simp
    then show ?thesis by blast
  next
    assume "\<exists>t \<in> set algos. cmd_compress s = Set ([t, ''|''] @ base_cmd s @ [t @ '' -d'', ''|''])"
    then obtain t where t: "t \<in> set algos"
      and pc: "cmd_compress s = Set ([t, ''|''] @ base_cmd s @ [t @ '' -d'', ''|''])" by blast
    have "sublist (base_cmd s) ([t, ''|''] @ base_cmd s @ [t @ '' -d'', ''|''])"
      unfolding sublist_def by blast
    with c t pc show ?thesis by blast
  qed
qed

text \<open>
The instance: the end-to-end scenario with gzip.
\<close>

theorem pipeline_wraps_base_witness:
  "SSH_init ''alice'' ''backup.example'' (Some ''/tmp/validkey'') 22 (Some ''gzip'') ex_world =
     (Inr (), ex_ssh\<lparr>compression := Set (Some ''gzip''),
                     cmd_compress := Set ([''gzip'', ''|''] @ ex_base @ [''gzip -d'', ''|''])\<rparr>,
      ex_world\<lparr>calls := [\<lparr>argv = ex_base @ [''ls''], timeout = 10\<rparr>]\<rparr>) \<and>
   sublist ex_base ([''gzip'', ''|''] @ ex_base @ [''gzip -d'', ''|''])"
proof -
  let ?s = "ex_ssh\<lparr>compression := Set (Some ''gzip''),
                   cmd_compress := Set ([''gzip'', ''|''] @ ex_base @ [''gzip -d'', ''|''])\<rparr>"
  have b: "base_cmd ?s = ex_base"
    by (simp add: ex_defs eval_defs)
  have pc: "cmd_compress ?s = Set ([''gzip'', ''|''] @ ex_base @ [''gzip -d'', ''|''])"
    by simp
  from pipeline_wraps_base [OF ex_init_gzip] obtain pre post where
    "cmd_compress ?s = Set (pre @ base_cmd ?s @ post)"
    "sublist (base_cmd ?s) (pre @ base_cmd ?s @ post)" by blast
  then have "sublist ex_base ([''gzip'', ''|''] @ ex_base @ [''gzip -d'', ''|''])"
    unfolding b pc by simp
  with ex_init_gzip show ?thesis by simp
qed

text \<open>
  C6, as the code has it. For a constructed session and any state of the world, \<^verbatim>\<open>close\<close>
  asks for the base command followed by \<^verbatim>\<open>-O exit\<close> with a timeout of 5. Whenever that
  program can be started, \<^verbatim>\<open>close\<close> returns normally, whatever the process does (exit
  status zero or not, timeout), and so does a second call. When the program cannot be
  started, the \<^verbatim>\<open>OSError\<close> reaches the caller.
\<close>

theorem close_swallows_process_failures:
  assumes "SSH_init u h k p z w0 = (Inr x, s, w1)"
  shows "cmd s = Set (base_cmd s) \<and>
     snd (close s w) =
       w\<lparr>calls := calls w @ [\<lparr>argv = base_cmd s @ [''-O'', ''exit''], timeout = 5\<rparr>]\<rparr> \<and>
     fst (close s w) =
       (if spawn w (calls w) \<lparr>argv = base_cmd s @ [''-O'', ''exit''], timeout = 5\<rparr> = Cannot_start
        then Inl (OSError (base_cmd s @ [''-O'', ''exit''])) else Inr ()) \<and>
     calls (snd (close s (snd (close s w)))) =
       calls w @ [\<lparr>argv = base_cmd s @ [''-O'', ''exit''], timeout = 5\<rparr>,
                  \<lparr>argv = base_cmd s @ [''-O'', ''exit''], timeout = 5\<rparr>] \<and>
     fst (close s (snd (close s w))) =
       (if spawn w (calls w @ [\<lparr>argv = base_cmd s @ [''-O'', ''exit''], timeout = 5\<rparr>])
             \<lparr>argv = base_cmd s @ [''-O'', ''exit''], timeout = 5\<rparr> = Cannot_start
        then Inl (OSError (base_cmd s @ [''-O'', ''exit''])) else Inr ())"
proof -
  have c: "cmd s = Set (base_cmd s)"
    using SSH_init_cmd [OF assms] SSH_init_success [OF assms] by simp
  then show ?thesis by (simp add: close_eq)
qed

text \<open>
  The instance: the first \<^verbatim>\<open>-O exit\<close> ends the master connection, the second finds no
  control socket and exits with status 255; both calls of \<^verbatim>\<open>close\<close> return normally.
\<close>

theorem close_swallows_process_failures_witness:
  "SSH_init ''alice'' ''backup.example'' (Some ''/tmp/validkey'') 22 None ex_closing =
     (Inr (), ex_ssh, ex_closing\<lparr>calls := [\<lparr>argv = ex_base @ [''ls''], timeout = 10\<rparr>]\<rparr>) \<and>
   spawn ex_closing [\<lparr>argv = ex_base @ [''ls''], timeout = 10\<rparr>]
     \<lparr>argv = ex_base @ [''-O'', ''exit''], timeout = 5\<rparr> = Exited 0 [] [] \<and>
   spawn ex_closing [\<lparr>argv = ex_base @ [''ls''], timeout = 10\<rparr>,
                     \<lparr>argv = ex_base @ [''-O'', ''exit''], timeout = 5\<rparr>]
     \<lparr>argv = ex_base @ [''-O'', ''exit''], timeout = 5\<rparr> =
       Exited 255 [] ''Control socket connect: No such file or directory'' \<and>
   close ex_ssh (ex_closing\<lparr>calls := [\<lparr>argv = ex_base @ [''ls''], timeout = 10\<rparr>]\<rparr>) =
     (Inr (), ex_closing\<lparr>calls := [\<lparr>argv = ex_base @ [''ls''], timeout = 10\<rparr>,
                                    \<lparr>argv = ex_base @ [''-O'', ''exit''], timeout = 5\<rparr>]\<rparr>) \<and>
   close ex_ssh (ex_closing\<lparr>calls := [\<lparr>argv = ex_base @ [''ls''], timeout = 10\<rparr>,
                                    \<lparr>argv = ex_base @ [''-O'', ''exit''], timeout = 5\<rparr>]\<rparr>) =
     (Inr (), ex_closing\<lparr>calls := [\<lparr>argv = ex_base @ [''ls''], timeout = 10\<rparr>,
                                    \<lparr>argv = ex_base @ [''-O'', ''exit''], timeout = 5\<rparr>,
                                    \<lparr>argv = ex_base @ [''-O'', ''exit''], timeout = 5\<rparr>]\<rparr>)"
proof -
  note th = close_swallows_process_failures [OF ex_init_closing]
  have sp: "spawn ex_closing [\<lparr>argv = ex_base @ [''ls''], timeout = 10\<rparr>]
     \<lparr>argv = ex_base @ [''-O'', ''exit''], timeout = 5\<rparr> = Exited 0 [] []"
    "spawn ex_closing [\<lparr>argv = ex_base @ [''ls''], timeout = 10\<rparr>,
                     \<lparr>argv = ex_base @ [''-O'', ''exit''], timeout = 5\<rparr>]
     \<lparr>argv = ex_base @ [''-O'', ''exit''], timeout = 5\<rparr> =
       Exited 255 [] ''Control socket connect: No such file or directory''"
    by (simp_all add: ex_closing_def ex_defs)
  show ?thesis
    using th [of "ex_closing\<lparr>calls := [\<lparr>argv = ex_base @ [''ls''], timeout = 10\<rparr>]\<rparr>"]
      th [of "ex_closing\<lparr>calls := [\<lparr>argv = ex_base @ [''ls''], timeout = 10\<rparr>,
                                    \<lparr>argv = ex_base @ [''-O'', ''exit''], timeout = 5\<rparr>]\<rparr>"]
      ex_init_closing sp
    by (simp add: ex_base_cmd prod_eq_iff)
qed

text \<open>
  \<^verbatim>\<open>close\<close> can raise: the session is constructed while the transport program can be
  started, and by the time of \<^verbatim>\<open>close\<close> it cannot. The \<^verbatim>\<open>OSError\<close> is not one of the two
  exceptions of lines 146 and 147 and reaches the caller.
\<close>

theorem close_raises_when_transport_cannot_start:
  "SSH_init ''alice'' ''backup.example'' (Some ''/tmp/validkey'') 22 None ex_vanishing =
     (Inr (), ex_ssh, ex_vanishing\<lparr>calls := [\<lparr>argv = ex_base @ [''ls''], timeout = 10\<rparr>]\<rparr>) \<and>
   close ex_ssh (ex_vanishing\<lparr>calls := [\<lparr>argv = ex_base @ [''ls''], timeout = 10\<rparr>]\<rparr>) =
     (Inl (OSError (ex_base @ [''-O'', ''exit''])),
      ex_vanishing\<lparr>calls := [\<lparr>argv = ex_base @ [''ls''], timeout = 10\<rparr>,
                              \<lparr>argv = ex_base @ [''-O'', ''exit''], timeout = 5\<rparr>]\<rparr>)"
proof -
  have "close ex_ssh (ex_vanishing\<lparr>calls := [\<lparr>argv = ex_base @ [''ls''], timeout = 10\<rparr>]\<rparr>) =
     (Inl (OSError (ex_base @ [''-O'', ''exit''])),
      ex_vanishing\<lparr>calls := [\<lparr>argv = ex_base @ [''ls''], timeout = 10\<rparr>,
                              \<lparr>argv = ex_base @ [''-O'', ''exit''], timeout = 5\<rparr>]\<rparr>)"
    by (simp add: close_eq) (simp add: ex_vanishing_def ex_ssh_def)
  with ex_init_vanishing show ?thesis by simp
qed

text \<open>
  C7. In every constructed session \<open>cmd\<close> is the vector ssh, -i, key, -o,
  ControlMaster=auto, -o, ControlPersist=1m, -o, ControlPath=socket, -p, port,
  user@host, in this order; it begins with the transport binary and ends with the target.
\<close>

theorem base_command_vector:
  assumes "SSH_init u h k p z w = (Inr x, s, w1)"
  shows "\<exists>c. cmd s = Set c \<and>
     c = [''ssh'', ''-i'', key s, ''-o'', ''ControlMaster=auto'', ''-o'', ''ControlPersist=1m'',
          ''-o'', ''ControlPath='' @ socket s, ''-p'', str_int (port s),
          user s @ ''@'' @ host s] \<and>
     hd c = ''ssh'' \<and> last c = u @ ''@'' @ h \<and>
     user s = u \<and> host s = h \<and> port s = p \<and> key s = resolve_key w k \<and>
     socket s = socket_path u h p (now w)"
proof -
  have "cmd s = Set (base_cmd s)"
    using SSH_init_cmd [OF assms] SSH_init_success [OF assms] by simp
  with SSH_init_fields [OF assms] show ?thesis
    by (simp add: base_cmd_def)
qed

text \<open>
The instance: the end-to-end scenario.
\<close>

theorem base_command_vector_witness:
  "SSH_init ''alice'' ''backup.example'' (Some ''/tmp/validkey'') 22 (Some ''gzip'') ex_world =
     (Inr (), ex_ssh\<lparr>compression := Set (Some ''gzip''),
                     cmd_compress := Set ([''gzip'', ''|''] @ ex_base @ [''gzip -d'', ''|''])\<rparr>,
      ex_world\<lparr>calls := [\<lparr>argv = ex_base @ [''ls''], timeout = 10\<rparr>]\<rparr>) \<and>
   cmd (ex_ssh\<lparr>compression := Set (Some ''gzip''),
               cmd_compress := Set ([''gzip'', ''|''] @ ex_base @ [''gzip -d'', ''|''])\<rparr>) =
     Set [''ssh'', ''-i'', ''/tmp/validkey'', ''-o'', ''ControlMaster=auto'', ''-o'',
          ''ControlPersist=1m'', ''-o'',
          ''ControlPath=/tmp/pyznap_alice@backup.example:22_2019-03-07_09:30:05'', ''-p'', ''22'',
          ''alice@backup.example'']"
  using base_command_vector [OF ex_init_gzip] ex_init_gzip
  by (simp add: ex_defs eval_defs)

text \<open>
  C8, as the code has it. The socket path is \<^verbatim>\<open>/tmp/pyznap_\<close>, user, an at sign, host, a
  colon, the port in decimal, an underscore and the creation time as
  \<^verbatim>\<open>YYYY-MM-DD_HH:MM:SS\<close> (19 characters). For hosts without an at sign, two sessions
  have the same socket path exactly when user, host, port and the creation times to the
  second are the same: paths differ when the timestamps differ at second granularity, and
  when the endpoints differ.
\<close>

theorem socket_path_collisions:
  assumes "SSH_init u h k p z w = (r, s, w1)" and "SSH_init u' h' k' p' z' w' = (r', s', w1')"
    and "datetime_in_range (now w)" and "datetime_in_range (now w')"
    and "CHR ''@'' \<notin> set h" and "CHR ''@'' \<notin> set h'"
  shows "socket s = ''/tmp/pyznap_'' @ u @ ''@'' @ h @ '':'' @ str_int p @ ''_'' @ strftime (now w) \<and>
     length (strftime (now w)) = 19 \<and>
     (socket s = socket s' \<longleftrightarrow>
        u = u' \<and> h = h' \<and> p = p' \<and> to_second (now w) = to_second (now w'))"
proof -
  have s: "socket s = socket_path u h p (now w)"
    using SSH_init_fields [OF assms(1)] by simp
  have s': "socket s' = socket_path u' h' p' (now w')"
    using SSH_init_fields [OF assms(2)] by simp
  have iff: "socket_path u h p (now w) = socket_path u' h' p' (now w') \<longleftrightarrow>
        u = u' \<and> h = h' \<and> p = p' \<and> to_second (now w) = to_second (now w')"
  proof
    assume "socket_path u h p (now w) = socket_path u' h' p' (now w')"
    then show "u = u' \<and> h = h' \<and> p = p' \<and> to_second (now w) = to_second (now w')"
      by (rule socket_path_inj [OF assms(3,4,5,6)])
  next
    assume a: "u = u' \<and> h = h' \<and> p = p' \<and> to_second (now w) = to_second (now w')"
    then have "strftime (now w) = strftime (now w')"
      by (intro strftime_to_second) simp
    with a show "socket_path u h p (now w) = socket_path u' h' p' (now w')"
      by (simp add: socket_path_def)
  qed
  have fmt: "socket s =
      ''/tmp/pyznap_'' @ u @ ''@'' @ h @ '':'' @ str_int p @ ''_'' @ strftime (now w)"
    unfolding s by (simp only: socket_path_def)
  have len: "length (strftime (now w)) = 19"
    by (rule length_strftime [OF assms(3)])
  have col: "socket s = socket s' \<longleftrightarrow>
        u = u' \<and> h = h' \<and> p = p' \<and> to_second (now w) = to_second (now w')"
    unfolding s s' by (rule iff)
  from fmt len col show ?thesis by (intro conjI)
qed

text \<open>
The instance: the same endpoint, one second apart.
\<close>

theorem socket_path_collisions_witness:
  "datetime_in_range (now ex_world) \<and> datetime_in_range (now ex_next_second) \<and>
   CHR ''@'' \<notin> set ''backup.example'' \<and>
   to_second (now ex_world) \<noteq> to_second (now ex_next_second) \<and>
   socket (fst (snd (SSH_init ''alice'' ''backup.example'' (Some ''/tmp/validkey'') 22 None ex_world))) =
     ''/tmp/pyznap_alice@backup.example:22_2019-03-07_09:30:05'' \<and>
   socket (fst (snd (SSH_init ''alice'' ''backup.example'' (Some ''/tmp/validkey'') 22 None ex_world)))
     \<noteq> socket (fst (snd (SSH_init ''alice'' ''backup.example'' (Some ''/tmp/validkey'') 22 None
          ex_next_second)))"
proof -
  let ?A = "SSH_init ''alice'' ''backup.example'' (Some ''/tmp/validkey'') 22 None ex_world"
  let ?B = "SSH_init ''alice'' ''backup.example'' (Some ''/tmp/validkey'') 22 None ex_next_second"
  have r1: "datetime_in_range (now ex_world)"
    by (simp add: ex_world_def ex_now_def datetime_in_range_def)
  have r2: "datetime_in_range (now ex_next_second)"
    by (simp add: ex_next_second_def ex_world_def ex_now_def datetime_in_range_def)
  have a: "CHR ''@'' \<notin> set ''backup.example''" by simp
  have d: "to_second (now ex_world) \<noteq> to_second (now ex_next_second)"
    by (simp add: ex_next_second_def ex_world_def ex_now_def to_second_def)
  have eA: "?A = (fst ?A, fst (snd ?A), snd (snd ?A))" by simp
  have eB: "?B = (fst ?B, fst (snd ?B), snd (snd ?B))" by simp
  note th = socket_path_collisions [OF eA eB r1 r2 a a]
  have "socket (fst (snd ?A)) \<noteq> socket (fst (snd ?B))"
    using th d by blast
  moreover have "socket (fst (snd ?A)) = ''/tmp/pyznap_alice@backup.example:22_2019-03-07_09:30:05''"
    by (simp add: ex_init) (simp add: ex_ssh_def)
  ultimately show ?thesis using r1 r2 a d by blast
qed

text \<open>
  The path is not unique per session: a second session to the same endpoint, constructed
  in the same process 750 milliseconds after the first, gets the same socket path.
\<close>

theorem socket_path_shared_within_second:
  "fst (SSH_init ''alice'' ''backup.example'' (Some ''/tmp/validkey'') 22 None ex_world) = Inr () \<and>
   fst (SSH_init ''alice'' ''backup.example'' (Some ''/tmp/validkey'') 22 None ex_later) = Inr () \<and>
   now ex_later \<noteq> now ex_world \<and>
   socket (fst (snd (SSH_init ''alice'' ''backup.example'' (Some ''/tmp/validkey'') 22 None ex_world))) =
   socket (fst (snd (SSH_init ''alice'' ''backup.example'' (Some ''/tmp/validkey'') 22 None ex_later)))"
proof -
  have "now ex_later \<noteq> now ex_world"
    by (simp add: ex_later_eq) (simp add: ex_world_def ex_now_def)
  then show ?thesis by (simp add: ex_init ex_init_later)
qed

text \<open>
  C9. \<^verbatim>\<open>setup_compress\<close> leaves \<open>cmd\<close> as it was, for every request, object and world;
  the object it returns differs from the one it was given in \<open>compression\<close> and
  \<open>cmd_compress\<close> at most.
\<close>

theorem setup_compress_frame:
  "cmd (fst (snd (setup_compress z s w))) = cmd s \<and>
   (\<exists>x y. fst (snd (setup_compress z s w)) = s\<lparr>compression := x, cmd_compress := y\<rparr>)"
proof
  show "cmd (fst (snd (setup_compress z s w))) = cmd s"
    using setup_compress_keeps [of z s w "fst (setup_compress z s w)"
        "fst (snd (setup_compress z s w))" "snd (snd (setup_compress z s w))"]
    by simp
  show "\<exists>x y. fst (snd (setup_compress z s w)) = s\<lparr>compression := x, cmd_compress := y\<rparr>"
    using setup_compress_writes [of z s w] by blast
qed

text \<open>
  C10. When the constructor aborts at the key check, the object has no \<open>cmd\<close>. Calling
  \<^verbatim>\<open>close\<close> on it, directly or through \<^verbatim>\<open>__del__\<close>, raises \<^verbatim>\<open>AttributeError\<close>: the
  attribute is read without a guard and \<^verbatim>\<open>close\<close> swallows only the two exceptions of
  the process.
\<close>

theorem close_after_aborted_init:
  assumes "\<not> isfile w (resolve_key w k)"
    and "SSH_init u h k p z w = (r, s, w1)"
  shows "r = Inl (FileNotFoundError (resolve_key w k)) \<and> cmd s = Unset \<and>
     close s w2 = (Inl (AttributeError ''cmd''), w2) \<and>
     SSH_del s w2 = (Inl (AttributeError ''cmd''), w2) \<and>
     \<not> close_swallows (AttributeError ''cmd'')"
proof -
  have "cmd s = Unset" using SSH_init_cmd [OF assms(2)] assms(1) by simp
  moreover have "r = Inl (FileNotFoundError (resolve_key w k))"
    using SSH_init_missing_key [OF assms(1), of u h p z] assms(2) by simp
  ultimately show ?thesis
    by (simp add: close_eq SSH_del_def close_swallows_def)
qed

text \<open>
The instance: the key \<^verbatim>\<open>/tmp/nokey\<close> does not exist.
\<close>

theorem close_after_aborted_init_witness:
  "\<not> isfile ex_world (resolve_key ex_world (Some ''/tmp/nokey'')) \<and>
   fst (SSH_init ''alice'' ''backup.example'' (Some ''/tmp/nokey'') 22 None ex_world) =
     Inl (FileNotFoundError ''/tmp/nokey'') \<and>
   SSH_del (fst (snd (SSH_init ''alice'' ''backup.example'' (Some ''/tmp/nokey'') 22 None ex_world)))
     (snd (snd (SSH_init ''alice'' ''backup.example'' (Some ''/tmp/nokey'') 22 None ex_world))) =
     (Inl (AttributeError ''cmd''),
      ex_world\<lparr>logged := [Error_invalid_key ''/tmp/nokey'']\<rparr>)"
proof -
  have h: "\<not> isfile ex_world (resolve_key ex_world (Some ''/tmp/nokey''))"
    by (simp add: ex_world_def resolve_key_def)
  have e: "SSH_init ''alice'' ''backup.example'' (Some ''/tmp/nokey'') 22 None ex_world =
    (fst (SSH_init ''alice'' ''backup.example'' (Some ''/tmp/nokey'') 22 None ex_world),
     fst (snd (SSH_init ''alice'' ''backup.example'' (Some ''/tmp/nokey'') 22 None ex_world)),
     snd (snd (SSH_init ''alice'' ''backup.example'' (Some ''/tmp/nokey'') 22 None ex_world)))"
    by simp
  have w: "snd (snd (SSH_init ''alice'' ''backup.example'' (Some ''/tmp/nokey'') 22 None ex_world)) =
     ex_world\<lparr>logged := [Error_invalid_key ''/tmp/nokey'']\<rparr>"
    by (simp add: SSH_init_missing_key [OF h] log_to_def) (simp add: resolve_key_def ex_world_def)
  show ?thesis
    using h close_after_aborted_init [OF h e] w
    by (simp add: resolve_key_def)
qed

end
